theory Spec2Isabelle
  imports Main
begin

section \<open>The page as the plugin sees it\<close>

text \<open>
  The plugin \<^verbatim>\<open>src/plugins/tabs/tabs.js\<close> works on existing markup: a container whose first
  list holds one \<^verbatim>\<open>li\<close> per tab, each with one anchor, and whose children selected by
  \<^verbatim>\<open>'>' + settings.tabStruct\<close> are the content sections.

  A list item is recorded with the \<^verbatim>\<open>hash\<close> of its anchor and with whether it carries
  \<^verbatim>\<open>settings.selectedClass\<close> and \<^verbatim>\<open>settings.disabledClass\<close>. A section is recorded
  with its id, with whether it carries \<^verbatim>\<open>settings.hideClass\<close>, and with the \<^verbatim>\<open>display\<close>
  property of its inline style (the empty string when unset). The three class names are
  taken to be distinct, as their defaults are, and the style sheet is taken to give
  \<^verbatim>\<open>display: none\<close> to the hide class, as the plugin's own does.
\<close>

record li =
  hash :: string
  selectedClass :: bool
  disabledClass :: bool

record sect =
  elem_id :: string
  hideClass :: bool
  display :: string

record container =
  tabs :: "li list"
  tabsContents :: "sect list"

text \<open>
  jQuery's \<^verbatim>\<open>:visible\<close>: the computed display is not none. An inline display wins over
  the class; \<^verbatim>\<open>:hidden\<close> is its negation on these elements.
\<close>

definition visible :: "sect \<Rightarrow> bool" where
  "visible e = (if display e = '''' then \<not> hideClass e else display e \<noteq> ''none'')"

text \<open>
  jQuery's \<^verbatim>\<open>show()\<close>: clear the inline display, and set it to block when the element
  is still not displayed. The end of a hide animation leaves \<^verbatim>\<open>display: none\<close> inline.
\<close>

definition jq_show :: "sect \<Rightarrow> sect" where
  "jq_show e = (let e' = e\<lparr>display := ''''\<rparr> in if visible e' then e' else e'\<lparr>display := ''block''\<rparr>)"

definition fx_hide :: "sect \<Rightarrow> sect" where
  "fx_hide e = e\<lparr>display := ''none''\<rparr>"

text \<open>
  \<^verbatim>\<open>.eq(n)\<close> and \<^verbatim>\<open>:eq(n)\<close> match the element at index \<open>n\<close> of a set of \<open>len\<close> elements,
  and nothing when \<open>n\<close> is negative or too large.
\<close>

definition eq_index :: "int \<Rightarrow> nat \<Rightarrow> nat option" where
  "eq_index n len = (if 0 \<le> n \<and> n < int len then Some (nat n) else None)"

definition on_eq :: "int \<Rightarrow> ('a \<Rightarrow> 'a) \<Rightarrow> 'a list \<Rightarrow> 'a list" where
  "on_eq n f xs = (case eq_index n (length xs) of None \<Rightarrow> xs | Some k \<Rightarrow> xs[k := f (xs ! k)])"

definition on_not_eq :: "int \<Rightarrow> ('a \<Rightarrow> 'a) \<Rightarrow> 'a list \<Rightarrow> 'a list" where
  "on_not_eq n f xs = map (\<lambda>(k, x). if int k = n then x else f x) (enumerate 0 xs)"

text \<open>
  \<^verbatim>\<open>$(hash)\<close> for a link's hash: the first section whose id the hash names. Only the
  container's own sections are looked at; the rest of the document is not modelled.
\<close>

fun find_id :: "string \<Rightarrow> sect list \<Rightarrow> nat \<Rightarrow> nat option" where
  "find_id h [] k = None"
| "find_id h (e # es) k = (if CHR ''#'' # elem_id e = h then Some k else find_id h es (Suc k))"

definition jq_hash :: "string \<Rightarrow> container \<Rightarrow> nat option" where
  "jq_hash h c = find_id h (tabsContents c) 0"

text \<open>\<^verbatim>\<open>$('>' + settings.tabStruct + ':visible', container)\<close>, as indices.\<close>

definition visible_contents :: "container \<Rightarrow> nat list" where
  "visible_contents c = filter (\<lambda>k. visible (tabsContents c ! k)) [0..<length (tabsContents c)]"

definition selected_tabs :: "container \<Rightarrow> nat list" where
  "selected_tabs c = filter (\<lambda>k. selectedClass (tabs c ! k)) [0..<length (tabs c)]"

definition disabled_tabs :: "container \<Rightarrow> nat list" where
  "disabled_tabs c = filter (\<lambda>k. disabledClass (tabs c ! k)) [0..<length (tabs c)]"

section \<open>Settings\<close>

text \<open>
  Of the settings object, the fields that decide which tab is selected, which section is
  shown and which tabs are disabled: \<^verbatim>\<open>initial\<close>, \<^verbatim>\<open>disabled\<close> and \<^verbatim>\<open>bookmarkable\<close>.
  \<^verbatim>\<open>$.extend\<close> copies every key of the object a caller passes, so a caller can set each
  of the three; \<open>None\<close> is a key left out. The other keys are copied too but are outside
  this model: animations are the default ones or the fade and slide ones (a section is
  hidden at the end of its hide animation and shown by its show animation), the three
  callbacks are absent, and the class names and the selector of the sections are fixed by
  the way the page is recorded.
\<close>

record settings =
  initial :: int
  disabled :: "int list option"
  bookmarkable :: bool

record options =
  opt_initial :: "int option"
  opt_disabled :: "int list option"
  opt_bookmarkable :: "bool option"

datatype arg = Undefined | Number int | Object options

datatype browser = Msie | Safari | Opera | Mozilla

text \<open>
  Lines 137 to 157: the settings object, built once for the whole call. An \<^verbatim>\<open>initial\<close> key of
  the object passed overwrites the index computed from the first argument, and is not
  decremented.
\<close>

definition jq_extend :: "settings \<Rightarrow> options \<Rightarrow> settings" where
  "jq_extend d opts =
     d\<lparr>initial := (case opt_initial opts of None \<Rightarrow> initial d | Some n \<Rightarrow> n),
       disabled := (case opt_disabled opts of None \<Rightarrow> disabled d | Some ds \<Rightarrow> Some ds),
       bookmarkable := (case opt_bookmarkable opts of None \<Rightarrow> bookmarkable d | Some b \<Rightarrow> b)\<rparr>"

definition make_settings :: "bool \<Rightarrow> arg \<Rightarrow> options option \<Rightarrow> settings" where
  "make_settings ajaxHistory initial_arg settings_arg =
     (let given = (case initial_arg of Object opts \<Rightarrow> Some opts | _ \<Rightarrow> settings_arg);
          defaults = \<lparr>initial = (case initial_arg of Number n \<Rightarrow> if n > 0 then n - 1 else 0 | _ \<Rightarrow> 0),
                      disabled = None,
                      bookmarkable = ajaxHistory\<rparr>
      in case given of None \<Rightarrow> defaults | Some opts \<Rightarrow> jq_extend defaults opts)"

section \<open>Initialisation of one container\<close>

text \<open>
  Lines 172 to 189: the loop over the tab links that looks for \<^verbatim>\<open>location.hash\<close>. It
  stores the index of the first link whose hash matches into \<^verbatim>\<open>settings.initial\<close> and
  breaks; with no match the field keeps its value.
\<close>

fun each_hash :: "string \<Rightarrow> li list \<Rightarrow> nat \<Rightarrow> int \<Rightarrow> int" where
  "each_hash loc [] i ini = ini"
| "each_hash loc (a # as) i ini = (if hash a = loc then int i else each_hash loc as (Suc i) ini)"

definition disableTab :: "li \<Rightarrow> li" where
  "disableTab l = l\<lparr>disabledClass := True\<rparr>"

definition enableTab :: "li \<Rightarrow> li" where
  "enableTab l = l\<lparr>disabledClass := False\<rparr>"

text \<open>
  Lines 344 to 348: every entry of \<^verbatim>\<open>settings.disabled\<close> is decremented in place and the
  tab at the new value is disabled. The array is returned as the loop leaves it.
\<close>

fun disable_loop :: "int list \<Rightarrow> li list \<Rightarrow> int list \<times> li list" where
  "disable_loop [] ls = ([], ls)"
| "disable_loop (d # ds) ls =
     (let d' = d - 1;
          (ds', ls') = disable_loop ds (on_eq d' disableTab ls)
      in (d' # ds', ls'))"

text \<open>
  Lines 169 to 348: the body run for each container. It reads and writes the one settings
  object, so the settings are taken and returned, with the container as the body leaves
  it. \<open>ajaxHistory\<close> tells whether the History/Remote plugin is loaded. With
  \<^verbatim>\<open>settings.bookmarkable\<close> set and no plugin, \<^verbatim>\<open>tabs.history()\<close> at line 296 raises a
  TypeError: the tab and the section of lines 197 to 199 are marked by then, but no handler
  is bound and the tabs of \<^verbatim>\<open>settings.disabled\<close> are not disabled. With the plugin the two
  calls of lines 296 to 300 register the links and a callback with it, and change nothing
  of the container; the callback, when the plugin calls it, clicks the link at
  \<^verbatim>\<open>settings.initial\<close>, which is a click event like another (see the runs of events
  below). The automatic height (lines 202 to
  259) only sets a minimum height and the choice of the animations (lines 262 to 289) is
  fixed as said above; both are left out.
\<close>

datatype error = TypeError

definition init_container ::
    "bool \<Rightarrow> string \<Rightarrow> settings \<Rightarrow> container \<Rightarrow> (settings \<times> container) \<times> error option" where
  "init_container ajaxHistory loc s c =
     (let s1 = (if loc \<noteq> '''' then s\<lparr>initial := each_hash loc (tabs c) 0 (initial s)\<rparr> else s);
          contents1 = on_not_eq (initial s1) (\<lambda>e. e\<lparr>hideClass := True\<rparr>)
                        (on_eq (initial s1) jq_show (tabsContents c));
          tabs1 = on_eq (initial s1) (\<lambda>l. l\<lparr>selectedClass := True\<rparr>) (tabs c)
      in if bookmarkable s1 \<and> \<not> ajaxHistory
         then ((s1, \<lparr>tabs = tabs1, tabsContents = contents1\<rparr>), Some TypeError)
         else case disabled s1 of
           None \<Rightarrow> ((s1, \<lparr>tabs = tabs1, tabsContents = contents1\<rparr>), None)
         | Some ds \<Rightarrow>
             (let (ds', tabs2) = disable_loop ds tabs1
              in ((s1\<lparr>disabled := Some ds'\<rparr>, \<lparr>tabs = tabs2, tabsContents = contents1\<rparr>), None)))"

text \<open>
  \<^verbatim>\<open>this.each(...)\<close>, line 167: the containers in turn, the settings carried along. An error
  raised for one container ends the call, and the containers after it stay as they were.
\<close>

fun each_container ::
    "bool \<Rightarrow> string \<Rightarrow> settings \<Rightarrow> container list \<Rightarrow> (settings \<times> container list) \<times> error option" where
  "each_container ajaxHistory loc s [] = ((s, []), None)"
| "each_container ajaxHistory loc s (c # cs) =
     (case init_container ajaxHistory loc s c of
        ((s1, c'), Some e) \<Rightarrow> ((s1, c' # cs), Some e)
      | ((s1, c'), None) \<Rightarrow>
          (case each_container ajaxHistory loc s1 cs of
             ((s2, cs'), r) \<Rightarrow> ((s2, c' # cs'), r)))"

text \<open>
  \<^verbatim>\<open>$.fn.tabs\<close>: \<open>tabs_call\<close> is the whole call, \<open>fn_tabs\<close> the settings object and the
  containers as the call leaves them, whether it returns or raises.
\<close>

definition tabs_call ::
    "bool \<Rightarrow> string \<Rightarrow> arg \<Rightarrow> options option \<Rightarrow> container list \<Rightarrow> (settings \<times> container list) \<times> error option" where
  "tabs_call ajaxHistory loc initial_arg settings_arg cs =
     each_container ajaxHistory loc (make_settings ajaxHistory initial_arg settings_arg) cs"

definition fn_tabs :: "bool \<Rightarrow> string \<Rightarrow> arg \<Rightarrow> options option \<Rightarrow> container list \<Rightarrow> settings \<times> container list" where
  "fn_tabs ajaxHistory loc initial_arg settings_arg cs = fst (tabs_call ajaxHistory loc initial_arg settings_arg cs)"

section \<open>Event handlers\<close>

text \<open>
  A tab switch is not done when the click handler returns. The handler reads the guards
  and the visible sections and starts a hide animation on each of them (line 396); the
  classes move later, in the callback of each hide animation (lines 397 to 401), which
  starts the show animation, and in the callback of the show animation (lines 403 to 411).
  Other events can come in between. So a page carries the animations in flight, each
  with the variables its callback closes over: the index of the \<^verbatim>\<open>clicked\<close> link, the
  section \<^verbatim>\<open>toShow\<close> and the sections \<^verbatim>\<open>toHide\<close>.

  What a handler can change besides the container and the animations: the alerts shown,
  \<^verbatim>\<open>location.hash\<close> (as it reads back, with its leading \<^verbatim>\<open>#\<close>), and the hashes passed to
  \<^verbatim>\<open>$.ajaxHistory.update\<close>. \<open>bound\<close> tells whether initialisation got as far as binding
  the handlers. Scrolling, focus, the timers that blank and restore an id, the form Safari
  submits and the inline style of a list item are left out: none of them sets one of the
  three classes or the display of a section.
\<close>

record transition =
  clicked :: nat
  toShow :: nat
  toHide :: "nat list"

datatype animation = Hiding transition nat | Showing transition

record page =
  dom :: container
  alerts :: "string list"
  location_hash :: string
  history :: "string list"
  animations :: "animation list"
  bound :: bool

text \<open>
  The two callbacks. \<open>select_tab\<close> is line 397, which moves the selected class to the
  clicked tab. \<open>start_show\<close> is the callback of a hide animation, lines 397 to 401: it
  selects the clicked tab \<open>i\<close>, takes the hide class off its section \<open>j\<close> and starts the
  show animation on it, which displays the section at its start. \<open>show_done\<close> is the
  callback of the show animation, line 403: the sections that were to be hidden get the
  hide class, and their inline display is cleared.
\<close>

definition show_done :: "nat list \<Rightarrow> container \<Rightarrow> container" where
  "show_done hs c =
     c\<lparr>tabsContents :=
         map (\<lambda>(k, e). if k \<in> set hs then e\<lparr>hideClass := True, display := ''''\<rparr> else e)
           (enumerate 0 (tabsContents c))\<rparr>"

definition select_tab :: "nat \<Rightarrow> li list \<Rightarrow> li list" where
  "select_tab i ls = map (\<lambda>(k, l). l\<lparr>selectedClass := (k = i)\<rparr>) (enumerate 0 ls)"

definition start_show :: "nat \<Rightarrow> nat \<Rightarrow> container \<Rightarrow> container" where
  "start_show i j c =
     c\<lparr>tabs := select_tab i (tabs c),
       tabsContents := (tabsContents c)[j := jq_show ((tabsContents c ! j)\<lparr>hideClass := False\<rparr>)]\<rparr>"

text \<open>
  Lines 363 to 432: the click handler of the link at index \<open>i\<close>, with its return value.
  \<^verbatim>\<open>toHide.animate(...)\<close> queues one hide animation for each visible section, and none, so
  that no callback ever runs, when no section is visible.
\<close>

definition click :: "settings \<Rightarrow> nat \<Rightarrow> page \<Rightarrow> bool \<times> page" where
  "click s i p =
     (let c = dom p; jqLi = tabs c ! i in
      if disabledClass jqLi then (False, p)
      else if \<not> selectedClass jqLi then
        (case jq_hash (hash jqLi) c of
           Some j \<Rightarrow>
             (bookmarkable s,
              p\<lparr>animations := animations p @
                    map (Hiding \<lparr>clicked = i, toShow = j, toHide = visible_contents c\<rparr>) (visible_contents c)\<rparr>)
         | None \<Rightarrow> (bookmarkable s, p\<lparr>alerts := alerts p @ [''There is no such container.'']\<rparr>))
      else (bookmarkable s, p))"

text \<open>
  The end of the animation at position \<open>n\<close> of those in flight. A hide animation leaves its
  section with \<^verbatim>\<open>display: none\<close> and runs \<open>start_show\<close>, which puts the show animation in
  flight; a show animation runs \<open>show_done\<close>. Any animation in flight may end next: jQuery
  ends the animations of one element in the order they were queued, so the runs of the
  page are among those of the model.
\<close>

definition animation_end :: "nat \<Rightarrow> page \<Rightarrow> page" where
  "animation_end n p =
     (if n < length (animations p) then
        (let others = take n (animations p) @ drop (Suc n) (animations p); c = dom p in
         case animations p ! n of
           Hiding t k \<Rightarrow>
             p\<lparr>dom := start_show (clicked t) (toShow t)
                        (c\<lparr>tabsContents := (tabsContents c)[k := fx_hide (tabsContents c ! k)]\<rparr>),
               animations := others @ [Showing t]\<rparr>
         | Showing t \<Rightarrow> p\<lparr>dom := show_done (toHide t) c, animations := others\<rparr>)
      else p)"

text \<open>Lines 303 to 336: the \<^verbatim>\<open>triggerTab\<close> handler of the link at index \<open>i\<close>.\<close>

definition triggerTab :: "settings \<Rightarrow> browser \<Rightarrow> nat \<Rightarrow> page \<Rightarrow> page" where
  "triggerTab s br i p =
     (let c = dom p; this = tabs c ! i;
          is_hidden = (case jq_hash (hash this) c of None \<Rightarrow> False | Some j \<Rightarrow> \<not> visible (tabsContents c ! j))
      in if is_hidden \<and> \<not> disabledClass this then
           (case br of
              Msie \<Rightarrow>
                (let p1 = snd (click s i p)
                 in if bookmarkable s
                    then p1\<lparr>history := history p1 @ [hash this], location_hash := hash this\<rparr>
                    else p1)
            | Safari \<Rightarrow>
                (let p1 = snd (click s i p)
                 in if bookmarkable s then p1\<lparr>history := history p1 @ [hash this]\<rparr> else p1)
            | _ \<Rightarrow>
                (if bookmarkable s then p\<lparr>location_hash := hash this\<rparr> else snd (click s i p)))
         else p)"

text \<open>Lines 339 to 341 and 351 to 360: the \<^verbatim>\<open>disableTab\<close> and \<^verbatim>\<open>enableTab\<close> handlers.\<close>

definition disableTab_handler :: "nat \<Rightarrow> page \<Rightarrow> page" where
  "disableTab_handler i p = p\<lparr>dom := (dom p)\<lparr>tabs := (tabs (dom p))[i := disableTab (tabs (dom p) ! i)]\<rparr>\<rparr>"

definition enableTab_handler :: "nat \<Rightarrow> page \<Rightarrow> page" where
  "enableTab_handler i p = p\<lparr>dom := (dom p)\<lparr>tabs := (tabs (dom p))[i := enableTab (tabs (dom p) ! i)]\<rparr>\<rparr>"

section \<open>The three commands\<close>

text \<open>
  Lines 490 to 500. \<open>tab_index\<close> is
  \<^verbatim>\<open>tabIndex && tabIndex > 0 && tabIndex - 1 || 0\<close>, with \<open>None\<close> for a position left out.
\<close>

datatype tabEvent = TriggerTab | DisableTab | EnableTab

definition tab_index :: "int option \<Rightarrow> int" where
  "tab_index tabIndex = (case tabIndex of None \<Rightarrow> 0 | Some n \<Rightarrow> if n > 0 then n - 1 else 0)"

definition trigger :: "settings \<Rightarrow> browser \<Rightarrow> tabEvent \<Rightarrow> nat \<Rightarrow> page \<Rightarrow> page" where
  "trigger s br ev i p =
     (case ev of
        TriggerTab \<Rightarrow> triggerTab s br i p
      | DisableTab \<Rightarrow> disableTab_handler i p
      | EnableTab \<Rightarrow> enableTab_handler i p)"

definition tab_command :: "settings \<Rightarrow> browser \<Rightarrow> tabEvent \<Rightarrow> int option \<Rightarrow> page \<Rightarrow> page" where
  "tab_command s br ev tabIndex p =
     (case eq_index (tab_index tabIndex) (length (tabs (dom p))) of
        None \<Rightarrow> p
      | Some i \<Rightarrow> trigger s br ev i p)"

section \<open>The History/Remote plugin\<close>

text \<open>
  Modelled from the spec: the History/Remote plugin (\<^verbatim>\<open>$.ajaxHistory\<close>, \<^verbatim>\<open>$.fn.history\<close>),
  which \<^verbatim>\<open>tabs.js\<close> calls at lines 296 to 299, 311 and 322 and which is not among the
  sources. The spec gives it as a browser-history and bookmarking service with which the tab
  links are registered, and says of bookmarking that the URL fragment reflects the active
  tab, enabling back and forward navigation and direct linking. \<open>first_link\<close> is the
  lookup of that service: the first registered link, counted from \<open>k\<close>, whose hash is the
  fragment \<open>h\<close>.
\<close>

fun first_link :: "string \<Rightarrow> li list \<Rightarrow> nat \<Rightarrow> nat option" where
  "first_link h [] k = None"
| "first_link h (a # as) k = (if hash a = h then Some k else first_link h as (Suc k))"


section \<open>Runs of events\<close>

text \<open>
  What happens to a page after initialisation: a user clicks a link that exists, a script
  calls one of the three commands, or an animation in flight ends. A click of the plugin
  is a click like another. A click on an index that names no link is no event at all, and
  on a page whose handlers were not bound no event does anything.
\<close>

datatype event = Click nat | Command tabEvent "int option" | AnimationEnd nat

definition step :: "settings \<Rightarrow> browser \<Rightarrow> event \<Rightarrow> page \<Rightarrow> page" where
  "step s br e p =
     (if bound p then
        (case e of
           Click i \<Rightarrow> (if i < length (tabs (dom p)) then snd (click s i p) else p)
         | Command ev tabIndex \<Rightarrow> tab_command s br ev tabIndex p
         | AnimationEnd n \<Rightarrow> animation_end n p)
      else p)"

text \<open>A page whose handlers are bound, with nothing in flight.\<close>

definition new_page :: "string \<Rightarrow> container \<Rightarrow> page" where
  "new_page loc c = \<lparr>dom = c, alerts = [], location_hash = loc, history = [], animations = [], bound = True\<rparr>"

text \<open>The page that the initialisation of one container leaves.\<close>

definition page_after :: "string \<Rightarrow> (settings \<times> container) \<times> error option \<Rightarrow> page" where
  "page_after loc r = (new_page loc (snd (fst r)))\<lparr>bound := (snd r = None)\<rparr>"

text \<open>
  A run in which transitions do not overlap: while an animation is in flight, no event
  puts another one in flight. (The end of a hide animation puts the show animation of its
  transition in flight in its place.)
\<close>

fun one_at_a_time :: "settings \<Rightarrow> browser \<Rightarrow> event list \<Rightarrow> page \<Rightarrow> bool" where
  "one_at_a_time s br [] p = True"
| "one_at_a_time s br (e # es) p =
     ((animations p = [] \<or> length (animations (step s br e p)) \<le> length (animations p)) \<and>
      one_at_a_time s br es (step s br e p))"

text \<open>The indices of the links whose transitions are in flight.\<close>

fun transition_of :: "animation \<Rightarrow> transition" where
  "transition_of (Hiding t k) = t"
| "transition_of (Showing t) = t"

definition in_flight :: "page \<Rightarrow> nat list" where
  "in_flight p = map (\<lambda>a. clicked (transition_of a)) (animations p)"

section \<open>Markup\<close>

text \<open>
  The markup the plugin's documentation asks for (lines 18 to 40): as many sections as
  links, the link at each position pointing at the section at the same position, no two
  sections with one id, no list item selected yet and no inline display set.
\<close>

definition markup_ok :: "container \<Rightarrow> bool" where
  "markup_ok c =
     (list_all2 (\<lambda>l e. hash l = CHR ''#'' # elem_id e) (tabs c) (tabsContents c) \<and>
      distinct (map elem_id (tabsContents c)) \<and>
      list_all (\<lambda>l. \<not> selectedClass l) (tabs c) \<and>
      list_all (\<lambda>e. display e = '''') (tabsContents c))"

text \<open>The example of the documentation: three links and their three sections.\<close>

definition link :: "string \<Rightarrow> li" where
  "link h = \<lparr>hash = h, selectedClass = False, disabledClass = False\<rparr>"

definition division :: "string \<Rightarrow> sect" where
  "division n = \<lparr>elem_id = n, hideClass = False, display = ''''\<rparr>"

definition three_tabs :: container where
  "three_tabs =
     \<lparr>tabs = [link ''#section-1'', link ''#section-2'', link ''#section-3''],
      tabsContents = [division ''section-1'', division ''section-2'', division ''section-3'']\<rparr>"

text \<open>The same three links over markup that lacks the third section.\<close>

definition two_sections :: container where
  "two_sections =
     \<lparr>tabs = [link ''#section-1'', link ''#section-2'', link ''#section-3''],
      tabsContents = [division ''section-1'', division ''section-2'']\<rparr>"

text \<open>A second tab interface of the same page, with links and ids of its own.\<close>

definition other_tabs :: container where
  "other_tabs =
     \<lparr>tabs = [link ''#other-1'', link ''#other-2'', link ''#other-3''],
      tabsContents = [division ''other-1'', division ''other-2'', division ''other-3'']\<rparr>"

section \<open>Notions used in the statements\<close>

text \<open>
  \<open>activated n c c'\<close>: going from the markup \<open>c\<close> to \<open>c'\<close>, the tab at the 0-based index
  \<open>n\<close> was made the active one. Its list item is selected and no other list item gained
  the selected class; its section is visible and every other section carries the hide
  class.
\<close>

definition activated :: "int \<Rightarrow> container \<Rightarrow> container \<Rightarrow> bool" where
  "activated n c c' =
     (map selectedClass (tabs c') = map (\<lambda>(k, l). selectedClass l \<or> int k = n) (enumerate 0 (tabs c)) \<and>
      length (tabsContents c') = length (tabsContents c) \<and>
      list_all (\<lambda>(k, e). if int k = n then visible e else hideClass e) (enumerate 0 (tabsContents c')))"






text \<open>
  One container initialised on its own, as \<^verbatim>\<open>$('#container').tabs(...)\<close> does, on a page
  with the History/Remote plugin loaded, with the page its handlers then work on.
\<close>

definition started :: "string \<Rightarrow> settings \<Rightarrow> container \<Rightarrow> settings \<times> page" where
  "started loc s c = (fst (fst (init_container True loc s c)), page_after loc (init_container True loc s c))"

section \<open>Auxiliary facts\<close>

lemma eq_index_Some: "eq_index n len = Some k \<longleftrightarrow> 0 \<le> n \<and> n < int len \<and> k = nat n"
  by (auto simp: eq_index_def)

lemma eq_index_None: "eq_index n len = None \<longleftrightarrow> n < 0 \<or> int len \<le> n"
  by (auto simp: eq_index_def)

lemma tab_index_nonpos: "(case t of None \<Rightarrow> True | Some n \<Rightarrow> n \<le> 0) \<Longrightarrow> tab_index t = 0"
  by (auto simp: tab_index_def split: option.splits)

lemma length_select_tab [simp]: "length (select_tab i ls) = length ls"
  by (simp add: select_tab_def)

lemma nth_select_tab [simp]:
  "k < length ls \<Longrightarrow> select_tab i ls ! k = (ls ! k)\<lparr>selectedClass := (k = i)\<rparr>"
  by (simp add: select_tab_def nth_enumerate_eq)

lemma select_tab_idem [simp]: "select_tab i (select_tab i ls) = select_tab i ls"
  by (rule nth_equalityI) simp_all

lemma tabs_show_done [simp]: "tabs (show_done H c) = tabs c"
  by (simp add: show_done_def)

lemma tabs_start_show [simp]: "tabs (start_show i j c) = select_tab i (tabs c)"
  by (simp add: start_show_def)

lemma click_disabled: "disabledClass (tabs (dom p) ! i) \<Longrightarrow> click s i p = (False, p)"
  by (simp add: click_def Let_def)

lemma dom_click [simp]: "dom (snd (click s i p)) = dom p"
  by (simp add: click_def Let_def split: option.splits)

lemma bound_click [simp]: "bound (snd (click s i p)) = bound p"
  by (simp add: click_def Let_def split: option.splits)

lemma triggerTab_disabled: "disabledClass (tabs (dom p) ! i) \<Longrightarrow> triggerTab s br i p = p"
  by (simp add: triggerTab_def Let_def)

lemma dom_triggerTab [simp]: "dom (triggerTab s br i p) = dom p"
  by (cases br) (simp_all add: triggerTab_def Let_def)

lemma animations_triggerTab:
  "animations (triggerTab s br i p) = animations p \<or>
   animations (triggerTab s br i p) = animations (snd (click s i p))"
  by (cases br) (simp_all add: triggerTab_def Let_def)

text \<open>
  What a click does to the animations in flight: nothing, or it puts a hide animation in
  flight for each visible section, all for the clicked link and the section it points at.
\<close>

lemma animations_click:
  "animations (snd (click s i p)) = animations p \<or>
   (\<exists>j. \<not> disabledClass (tabs (dom p) ! i) \<and> \<not> selectedClass (tabs (dom p) ! i) \<and>
        jq_hash (hash (tabs (dom p) ! i)) (dom p) = Some j \<and>
        animations (snd (click s i p)) =
          animations p @ map (Hiding \<lparr>clicked = i, toShow = j, toHide = visible_contents (dom p)\<rparr>)
            (visible_contents (dom p)))"
  by (simp add: click_def Let_def split: option.splits)

lemma in_flight_click: "set (in_flight (snd (click s i p))) \<subseteq> insert i (set (in_flight p))"
  using animations_click [of s i p] by (auto simp: in_flight_def)

lemma in_flight_triggerTab: "set (in_flight (triggerTab s br i p)) \<subseteq> insert i (set (in_flight p))"
proof -
  have "in_flight (triggerTab s br i p) = in_flight p \<or>
        in_flight (triggerTab s br i p) = in_flight (snd (click s i p))"
    using animations_triggerTab [of s br i p] by (auto simp: in_flight_def)
  with in_flight_click [of s i p] show ?thesis by auto
qed

lemma selected_after_disable [simp]:
  "k < length (tabs (dom p)) \<Longrightarrow>
   selectedClass (tabs (dom (disableTab_handler i p)) ! k) = selectedClass (tabs (dom p) ! k)"
  by (cases "i = k") (simp_all add: disableTab_handler_def disableTab_def)

lemma selected_after_enable [simp]:
  "k < length (tabs (dom p)) \<Longrightarrow>
   selectedClass (tabs (dom (enableTab_handler i p)) ! k) = selectedClass (tabs (dom p) ! k)"
  by (cases "i = k") (simp_all add: enableTab_handler_def enableTab_def)

lemma animations_disable [simp]: "animations (disableTab_handler i p) = animations p"
  by (simp add: disableTab_handler_def)

lemma animations_enable [simp]: "animations (enableTab_handler i p) = animations p"
  by (simp add: enableTab_handler_def)

lemma in_flight_disable [simp]: "in_flight (disableTab_handler i p) = in_flight p"
  by (simp add: in_flight_def)

lemma in_flight_enable [simp]: "in_flight (enableTab_handler i p) = in_flight p"
  by (simp add: in_flight_def)

section \<open>The handlers of the two commands that disable and enable\<close>

lemma selected_tabs_cong:
  "length (tabs c') = length (tabs c) \<Longrightarrow>
   (\<And>k. k < length (tabs c) \<Longrightarrow> selectedClass (tabs c' ! k) = selectedClass (tabs c ! k)) \<Longrightarrow>
   selected_tabs c' = selected_tabs c"
  by (auto simp: selected_tabs_def intro: filter_cong)

lemma length_tabs_disable [simp]: "length (tabs (dom (disableTab_handler i p))) = length (tabs (dom p))"
  by (simp add: disableTab_handler_def)

lemma length_tabs_enable [simp]: "length (tabs (dom (enableTab_handler i p))) = length (tabs (dom p))"
  by (simp add: enableTab_handler_def)

lemma contents_disable [simp]: "tabsContents (dom (disableTab_handler i p)) = tabsContents (dom p)"
  by (simp add: disableTab_handler_def)

lemma contents_enable [simp]: "tabsContents (dom (enableTab_handler i p)) = tabsContents (dom p)"
  by (simp add: enableTab_handler_def)

lemma selected_tabs_disable [simp]: "selected_tabs (dom (disableTab_handler i p)) = selected_tabs (dom p)"
  by (rule selected_tabs_cong) simp_all

lemma selected_tabs_enable [simp]: "selected_tabs (dom (enableTab_handler i p)) = selected_tabs (dom p)"
  by (rule selected_tabs_cong) simp_all

lemma visible_contents_disable [simp]: "visible_contents (dom (disableTab_handler i p)) = visible_contents (dom p)"
  by (simp add: visible_contents_def)

lemma visible_contents_enable [simp]: "visible_contents (dom (enableTab_handler i p)) = visible_contents (dom p)"
  by (simp add: visible_contents_def)

lemma enable_disable [simp]:
  "i < length (tabs (dom p)) \<Longrightarrow> enableTab_handler i (disableTab_handler i p) = enableTab_handler i p"
  by (simp add: enableTab_handler_def disableTab_handler_def enableTab_def disableTab_def)

lemma disable_enable [simp]:
  "i < length (tabs (dom p)) \<Longrightarrow> disableTab_handler i (enableTab_handler i p) = disableTab_handler i p"
  by (simp add: enableTab_handler_def disableTab_handler_def enableTab_def disableTab_def)

lemma disable_disable [simp]:
  "i < length (tabs (dom p)) \<Longrightarrow> disableTab_handler i (disableTab_handler i p) = disableTab_handler i p"
  by (simp add: disableTab_handler_def disableTab_def)

lemma enable_enable [simp]:
  "i < length (tabs (dom p)) \<Longrightarrow> enableTab_handler i (enableTab_handler i p) = enableTab_handler i p"
  by (simp add: enableTab_handler_def enableTab_def)

lemma not_disabled_after_enable:
  "i < length (tabs (dom p)) \<Longrightarrow> \<not> disabledClass (tabs (dom (enableTab_handler i p)) ! i)"
  by (simp add: enableTab_handler_def enableTab_def)

section \<open>The return value of the click handler\<close>

text \<open>
  Claim C7, as amended. A click on a link whose list item is not disabled returns
  \<^verbatim>\<open>settings.bookmarkable\<close>, so the browser follows the link exactly when bookmarking is
  on. A click on a link whose list item is disabled returns false whatever the flag is.
\<close>

theorem click_returns_bookmarkable_unless_disabled:
  "i < length (tabs (dom p)) \<Longrightarrow>
   fst (click s i p) = (if disabledClass (tabs (dom p) ! i) then False else bookmarkable s)"
  by (simp add: click_def Let_def split: option.splits)

theorem click_returns_bookmarkable_unless_disabled_witness:
  "1 < length (tabs (dom (snd (started '''' \<lparr>initial = 0, disabled = Some [3], bookmarkable = True\<rparr> three_tabs)))) \<and>
   \<not> disabledClass (tabs (dom (snd (started '''' \<lparr>initial = 0, disabled = Some [3], bookmarkable = True\<rparr> three_tabs))) ! 1) \<and>
   bookmarkable (fst (started '''' \<lparr>initial = 0, disabled = Some [3], bookmarkable = True\<rparr> three_tabs)) \<and>
   fst (click (fst (started '''' \<lparr>initial = 0, disabled = Some [3], bookmarkable = True\<rparr> three_tabs)) 1
     (snd (started '''' \<lparr>initial = 0, disabled = Some [3], bookmarkable = True\<rparr> three_tabs))) = True"
  using click_returns_bookmarkable_unless_disabled [of 1
      "snd (started '''' \<lparr>initial = 0, disabled = Some [3], bookmarkable = True\<rparr> three_tabs)"
      "fst (started '''' \<lparr>initial = 0, disabled = Some [3], bookmarkable = True\<rparr> three_tabs)"]
  by code_simp

text \<open>
  With bookmarking on and the third tab disabled, a click on the third link returns false,
  not the flag.
\<close>

theorem click_on_disabled_tab_returns_false:
  "bookmarkable (fst (started '''' \<lparr>initial = 0, disabled = Some [3], bookmarkable = True\<rparr> three_tabs)) = True \<and>
   fst (click (fst (started '''' \<lparr>initial = 0, disabled = Some [3], bookmarkable = True\<rparr> three_tabs)) 2
     (snd (started '''' \<lparr>initial = 0, disabled = Some [3], bookmarkable = True\<rparr> three_tabs))) = False"
  by code_simp

section \<open>Positions that are not positive\<close>

text \<open>
  Claim C10. A command called with no position, with zero or with a negative position
  computes index 0: it triggers its event on the first tab link when there is one.
\<close>

theorem nonpositive_position_is_first_tab:
  "(case tabIndex of None \<Rightarrow> True | Some n \<Rightarrow> n \<le> 0) \<Longrightarrow>
   tab_command s br ev tabIndex p = (if tabs (dom p) = [] then p else trigger s br ev 0 p)"
  by (simp add: tab_command_def tab_index_nonpos eq_index_def)

theorem nonpositive_position_is_first_tab_witness:
  "(- 3::int) \<le> 0 \<and> tabs (dom (new_page '''' three_tabs)) \<noteq> [] \<and>
   disabled_tabs (dom (new_page '''' three_tabs)) = [] \<and>
   disabled_tabs (dom (tab_command \<lparr>initial = 0, disabled = None, bookmarkable = False\<rparr> Mozilla DisableTab (Some (- 3))
       (new_page '''' three_tabs))) = [0]"
  using nonpositive_position_is_first_tab [of "Some (- 3)" "\<lparr>initial = 0, disabled = None, bookmarkable = False\<rparr>"
      Mozilla DisableTab "new_page '''' three_tabs"]
  by code_simp

section \<open>Disabling and enabling\<close>

text \<open>
  Claim C8. For every position and every page, \<^verbatim>\<open>disableTab\<close> followed by \<^verbatim>\<open>enableTab\<close>
  at that position leaves the tab it names without the disabled class, and leaves the
  selected tabs and the visible sections as they were. Each of the two commands done twice
  is the same as done once, and of a disable and an enable at one position, in either
  order, the later one decides the state.
\<close>

theorem disable_then_enable:
  "selected_tabs (dom (tab_command s br EnableTab t (tab_command s br DisableTab t p))) = selected_tabs (dom p) \<and>
   visible_contents (dom (tab_command s br EnableTab t (tab_command s br DisableTab t p))) = visible_contents (dom p) \<and>
   (eq_index (tab_index t) (length (tabs (dom p))) = Some i \<longrightarrow>
      \<not> disabledClass (tabs (dom (tab_command s br EnableTab t (tab_command s br DisableTab t p))) ! i)) \<and>
   tab_command s br DisableTab t (tab_command s br DisableTab t p) = tab_command s br DisableTab t p \<and>
   tab_command s br EnableTab t (tab_command s br EnableTab t p) = tab_command s br EnableTab t p \<and>
   tab_command s br EnableTab t (tab_command s br DisableTab t p) = tab_command s br EnableTab t p \<and>
   tab_command s br DisableTab t (tab_command s br EnableTab t p) = tab_command s br DisableTab t p"
proof (cases "eq_index (tab_index t) (length (tabs (dom p)))")
  case None
  then show ?thesis by (simp add: tab_command_def)
next
  case (Some k)
  then have "k < length (tabs (dom p))" by (auto simp: eq_index_def split: if_splits)
  with Some show ?thesis
    by (simp add: tab_command_def trigger_def not_disabled_after_enable)
qed

theorem disable_then_enable_witness:
  "eq_index (tab_index (Some 3)) (length (tabs (dom (snd (started '''' \<lparr>initial = 1, disabled = Some [3], bookmarkable = False\<rparr> three_tabs))))) = Some 2 \<and>
   disabledClass (tabs (dom (snd (started '''' \<lparr>initial = 1, disabled = Some [3], bookmarkable = False\<rparr> three_tabs))) ! 2) \<and>
   \<not> disabledClass (tabs (dom (tab_command \<lparr>initial = 1, disabled = Some [2], bookmarkable = False\<rparr> Mozilla EnableTab (Some 3)
        (tab_command \<lparr>initial = 1, disabled = Some [2], bookmarkable = False\<rparr> Mozilla DisableTab (Some 3)
          (snd (started '''' \<lparr>initial = 1, disabled = Some [3], bookmarkable = False\<rparr> three_tabs))))) ! 2) \<and>
   selected_tabs (dom (tab_command \<lparr>initial = 1, disabled = Some [2], bookmarkable = False\<rparr> Mozilla EnableTab (Some 3)
        (tab_command \<lparr>initial = 1, disabled = Some [2], bookmarkable = False\<rparr> Mozilla DisableTab (Some 3)
          (snd (started '''' \<lparr>initial = 1, disabled = Some [3], bookmarkable = False\<rparr> three_tabs))))) = [1]"
  using disable_then_enable [of "\<lparr>initial = 1, disabled = Some [2], bookmarkable = False\<rparr>" Mozilla "Some 3"
      "snd (started '''' \<lparr>initial = 1, disabled = Some [3], bookmarkable = False\<rparr> three_tabs)" 2]
  by code_simp

section \<open>The position a command takes\<close>

text \<open>
  Claim C6, as amended. A command called without a position is the command at position 1.
  At a position from 1 to the number of tabs it triggers its event on the link at that
  position, counted from 1. At a position above the number of tabs it matches no link and
  does nothing. At zero or a negative position it does not do nothing: it is the command at
  position 1.
\<close>

theorem position_of_command:
  "tab_command s br ev None p = tab_command s br ev (Some 1) p \<and>
   (1 \<le> n \<and> n \<le> int (length (tabs (dom p))) \<longrightarrow>
      tab_command s br ev (Some n) p = trigger s br ev (nat (n - 1)) p) \<and>
   (int (length (tabs (dom p))) < n \<longrightarrow> tab_command s br ev (Some n) p = p) \<and>
   (n \<le> 0 \<longrightarrow> tab_command s br ev (Some n) p = tab_command s br ev (Some 1) p)"
  by (auto simp: tab_command_def tab_index_def eq_index_def)

theorem position_of_command_witness:
  "(1::int) \<le> 2 \<and> 2 \<le> int (length (tabs (dom (new_page '''' three_tabs)))) \<and>
   tab_command \<lparr>initial = 0, disabled = None, bookmarkable = False\<rparr> Mozilla DisableTab (Some 2) (new_page '''' three_tabs)
     = trigger \<lparr>initial = 0, disabled = None, bookmarkable = False\<rparr> Mozilla DisableTab 1 (new_page '''' three_tabs) \<and>
   disabled_tabs (dom (tab_command \<lparr>initial = 0, disabled = None, bookmarkable = False\<rparr> Mozilla DisableTab (Some 2)
     (new_page '''' three_tabs))) = [1]"
  using position_of_command [of "\<lparr>initial = 0, disabled = None, bookmarkable = False\<rparr>" Mozilla DisableTab
      "new_page '''' three_tabs" 2]
  by code_simp

text \<open>
  Position 0 is outside 1 to 3, and \<^verbatim>\<open>disableTab(0)\<close> on the three tabs disables the
  first of them.
\<close>

theorem disableTab_zero_disables_first_tab:
  "disabled_tabs (dom (new_page '''' three_tabs)) = [] \<and>
   disabled_tabs (dom (tab_command \<lparr>initial = 0, disabled = None, bookmarkable = False\<rparr> Mozilla DisableTab (Some 0)
     (new_page '''' three_tabs))) = [0]"
  by code_simp

section \<open>The alert\<close>

lemma alerts_click_found:
  "jq_hash (hash (tabs (dom p) ! i)) (dom p) = Some j \<Longrightarrow> alerts (snd (click s i p)) = alerts p"
  by (simp add: click_def Let_def)

lemma alerts_triggerTab [simp]: "alerts (triggerTab s br i p) = alerts p"
  by (auto simp: triggerTab_def Let_def alerts_click_found split: option.splits browser.splits)

lemma alerts_tab_command [simp]: "alerts (tab_command s br ev t p) = alerts p"
  by (cases ev)
     (simp_all add: tab_command_def trigger_def disableTab_handler_def enableTab_handler_def split: option.splits)

text \<open>
  Claim C5, as amended. A click on a link that is neither disabled nor selected and whose
  section is not found shows the alert and changes nothing else of the page. No other click
  shows an alert, and no command does, at any position. A command at a position above the
  number of tabs does nothing. (A command at zero or a negative position is silent too, but
  it acts on the first tab: see C10.)
\<close>

theorem missing_section_alert:
  "(i < length (tabs (dom p)) \<longrightarrow>
      (\<not> disabledClass (tabs (dom p) ! i) \<and> \<not> selectedClass (tabs (dom p) ! i) \<and>
       jq_hash (hash (tabs (dom p) ! i)) (dom p) = None \<longrightarrow>
         click s i p = (bookmarkable s, p\<lparr>alerts := alerts p @ [''There is no such container.'']\<rparr>)) \<and>
      (disabledClass (tabs (dom p) ! i) \<or> selectedClass (tabs (dom p) ! i) \<or>
       jq_hash (hash (tabs (dom p) ! i)) (dom p) \<noteq> None \<longrightarrow>
         alerts (snd (click s i p)) = alerts p)) \<and>
   alerts (tab_command s br ev t p) = alerts p \<and>
   (int (length (tabs (dom p))) < n \<longrightarrow> tab_command s br ev (Some n) p = p)"
proof (intro conjI impI)
  show "int (length (tabs (dom p))) < n \<Longrightarrow> tab_command s br ev (Some n) p = p"
    by (simp add: tab_command_def tab_index_def eq_index_def)
qed (auto simp: click_def Let_def)

theorem missing_section_alert_witness:
  "2 < length (tabs (dom (snd (started '''' \<lparr>initial = 0, disabled = None, bookmarkable = False\<rparr> two_sections)))) \<and>
   jq_hash (hash (tabs (dom (snd (started '''' \<lparr>initial = 0, disabled = None, bookmarkable = False\<rparr> two_sections))) ! 2))
     (dom (snd (started '''' \<lparr>initial = 0, disabled = None, bookmarkable = False\<rparr> two_sections))) = None \<and>
   alerts (snd (click \<lparr>initial = 0, disabled = None, bookmarkable = False\<rparr> 2
     (snd (started '''' \<lparr>initial = 0, disabled = None, bookmarkable = False\<rparr> two_sections)))) = [''There is no such container.''] \<and>
   dom (snd (click \<lparr>initial = 0, disabled = None, bookmarkable = False\<rparr> 2
     (snd (started '''' \<lparr>initial = 0, disabled = None, bookmarkable = False\<rparr> two_sections))))
     = dom (snd (started '''' \<lparr>initial = 0, disabled = None, bookmarkable = False\<rparr> two_sections)) \<and>
   alerts (snd (click \<lparr>initial = 0, disabled = None, bookmarkable = False\<rparr> 1
     (snd (started '''' \<lparr>initial = 0, disabled = None, bookmarkable = False\<rparr> two_sections)))) = []"
  using missing_section_alert [of 2 "snd (started '''' \<lparr>initial = 0, disabled = None, bookmarkable = False\<rparr> two_sections)"
      "\<lparr>initial = 0, disabled = None, bookmarkable = False\<rparr>" Mozilla TriggerTab "Some 3" 4]
  by code_simp

text \<open>
  Position -1 is no position of a tab, and \<^verbatim>\<open>enableTab(-1)\<close> is not a no-op: it enables
  the first tab.
\<close>

theorem enableTab_negative_enables_first_tab:
  "disabled_tabs (dom (snd (started '''' \<lparr>initial = 1, disabled = Some [1], bookmarkable = False\<rparr> three_tabs))) = [0] \<and>
   disabled_tabs (dom (tab_command \<lparr>initial = 1, disabled = Some [0], bookmarkable = False\<rparr> Mozilla EnableTab (Some (- 1))
     (snd (started '''' \<lparr>initial = 1, disabled = Some [1], bookmarkable = False\<rparr> three_tabs)))) = []"
  by code_simp

section \<open>Activating a tab from a script\<close>








text \<open>In the documented markup no two links have one hash, so every link is the first with its hash.\<close>

lemma first_link_found:
  "i < length ls \<Longrightarrow> hash (ls ! i) \<notin> hash ` set (take i ls) \<Longrightarrow> first_link (hash (ls ! i)) ls k = Some (k + i)"
proof (induction ls arbitrary: i k)
  case Nil
  then show ?case by simp
next
  case (Cons a ls)
  show ?case
  proof (cases i)
    case 0
    then show ?thesis by simp
  next
    case (Suc i')
    with Cons.prems have "hash a \<noteq> hash (ls ! i')" "i' < length ls" "hash (ls ! i') \<notin> hash ` set (take i' ls)"
      by auto
    with Cons.IH [of i' "Suc k"] Suc show ?thesis by simp
  qed
qed



section \<open>What initialisation does to a container\<close>

lemma visible_jq_show [simp]: "visible (jq_show e)"
  by (simp add: jq_show_def visible_def Let_def)

lemma elem_id_jq_show [simp]: "elem_id (jq_show e) = elem_id e"
  by (simp add: jq_show_def Let_def)

lemma each_hash_none: "loc \<notin> hash ` set ls \<Longrightarrow> each_hash loc ls k ini = ini"
  by (induction ls arbitrary: k) auto

lemma each_hash_first:
  "i < length ls \<Longrightarrow> hash (ls ! i) = loc \<Longrightarrow> loc \<notin> hash ` set (take i ls) \<Longrightarrow>
   each_hash loc ls k ini = int (k + i)"
proof (induction ls arbitrary: k i)
  case Nil
  then show ?case by simp
next
  case (Cons a ls)
  show ?case
  proof (cases i)
    case 0
    with Cons.prems show ?thesis by simp
  next
    case (Suc i')
    with Cons.prems have "hash a \<noteq> loc" "i' < length ls" "hash (ls ! i') = loc" "loc \<notin> hash ` set (take i' ls)"
      by auto
    with Cons.IH [of i' "Suc k"] Suc show ?thesis by simp
  qed
qed

lemma length_on_eq [simp]: "length (on_eq n f xs) = length xs"
  by (simp add: on_eq_def split: option.splits)

lemma nth_on_eq:
  "k < length xs \<Longrightarrow> on_eq n f xs ! k = (if int k = n then f (xs ! k) else xs ! k)"
  by (auto simp: on_eq_def eq_index_def nth_list_update)

lemma length_on_not_eq [simp]: "length (on_not_eq n f xs) = length xs"
  by (simp add: on_not_eq_def)

lemma nth_on_not_eq:
  "k < length xs \<Longrightarrow> on_not_eq n f xs ! k = (if int k = n then xs ! k else f (xs ! k))"
  by (simp add: on_not_eq_def nth_enumerate_eq)

lemma disable_loop_selected:
  "disable_loop ds ls = (ds', ls') \<Longrightarrow> map selectedClass ls' = map selectedClass ls \<and> map hash ls' = map hash ls"
proof (induction ds arbitrary: ls ds' ls')
  case Nil
  then show ?case by simp
next
  case (Cons d ds)
  obtain ds1 ls1 where r: "disable_loop ds (on_eq (d - 1) disableTab ls) = (ds1, ls1)"
    by (cases "disable_loop ds (on_eq (d - 1) disableTab ls)")
  with Cons.prems have "ls' = ls1" by (simp add: Let_def)
  moreover have "map selectedClass (on_eq (d - 1) disableTab ls) = map selectedClass ls"
    by (rule nth_equalityI) (simp_all add: nth_on_eq disableTab_def)
  moreover have "map hash (on_eq (d - 1) disableTab ls) = map hash ls"
    by (rule nth_equalityI) (simp_all add: nth_on_eq disableTab_def)
  ultimately show ?case using Cons.IH [OF r] by simp
qed

lemma init_container_tabs:
  "init_container ah loc s c = ((s', c'), r) \<Longrightarrow>
   map selectedClass (tabs c') =
     map selectedClass (on_eq (if loc \<noteq> '''' then each_hash loc (tabs c) 0 (initial s) else initial s)
        (\<lambda>l. l\<lparr>selectedClass := True\<rparr>) (tabs c)) \<and>
   map hash (tabs c') = map hash (tabs c)"
proof -
  assume a: "init_container ah loc s c = ((s', c'), r)"
  define n where "n = (if loc \<noteq> '''' then each_hash loc (tabs c) 0 (initial s) else initial s)"
  have h: "map hash (on_eq n (\<lambda>l. l\<lparr>selectedClass := True\<rparr>) (tabs c)) = map hash (tabs c)"
    by (rule nth_equalityI) (simp_all add: nth_on_eq)
  show ?thesis
  proof (cases "disabled s = None \<or> (bookmarkable s \<and> \<not> ah)")
    case True
    with a h show ?thesis by (auto simp: init_container_def Let_def n_def split: if_splits option.splits)
  next
    case False
    then obtain ds where ds: "disabled s = Some ds" and nb: "\<not> (bookmarkable s \<and> \<not> ah)" by auto
    obtain ds1 ls1 where r: "disable_loop ds (on_eq n (\<lambda>l. l\<lparr>selectedClass := True\<rparr>) (tabs c)) = (ds1, ls1)"
      by (cases "disable_loop ds (on_eq n (\<lambda>l. l\<lparr>selectedClass := True\<rparr>) (tabs c))")
    with a ds nb have "tabs c' = ls1" by (auto simp: init_container_def Let_def n_def split: if_splits)
    with disable_loop_selected [OF r] h show ?thesis by (simp add: n_def)
  qed
qed

lemma init_container_contents:
  "init_container ah loc s c = ((s', c'), r) \<Longrightarrow>
   tabsContents c' =
     on_not_eq (if loc \<noteq> '''' then each_hash loc (tabs c) 0 (initial s) else initial s) (\<lambda>e. e\<lparr>hideClass := True\<rparr>)
       (on_eq (if loc \<noteq> '''' then each_hash loc (tabs c) 0 (initial s) else initial s) jq_show (tabsContents c))"
  by (auto simp: init_container_def Let_def split: if_splits option.splits prod.splits)

lemma init_container_initial:
  "init_container ah loc s c = ((s', c'), r) \<Longrightarrow>
   initial s' = (if loc \<noteq> '''' then each_hash loc (tabs c) 0 (initial s) else initial s)"
  by (auto simp: init_container_def Let_def split: if_splits option.splits prod.splits)

lemma init_container_activated:
  assumes "init_container ah loc s c = ((s', c'), r)"
  shows "activated (if loc \<noteq> '''' then each_hash loc (tabs c) 0 (initial s) else initial s) c c'"
proof -
  define n where "n = (if loc \<noteq> '''' then each_hash loc (tabs c) 0 (initial s) else initial s)"
  have 1: "map selectedClass (tabs c') = map (\<lambda>(k, l). selectedClass l \<or> int k = n) (enumerate 0 (tabs c))"
    using init_container_tabs [OF assms]
    by (intro nth_equalityI) (auto simp: n_def nth_on_eq nth_enumerate_eq)
  have 2: "tabsContents c' = on_not_eq n (\<lambda>e. e\<lparr>hideClass := True\<rparr>) (on_eq n jq_show (tabsContents c))"
    using init_container_contents [OF assms] by (simp add: n_def)
  have 3: "list_all (\<lambda>(k, e). if int k = n then visible e else hideClass e) (enumerate 0 (tabsContents c'))"
    unfolding list_all_length
    by (auto simp: 2 nth_enumerate_eq nth_on_not_eq nth_on_eq)
  from 1 2 3 show ?thesis by (simp add: activated_def n_def)
qed

section \<open>The initial tab\<close>

text \<open>
  For the first container a call initialises, and so for the only one of
  \<^verbatim>\<open>$('#container').tabs(...)\<close>, when no \<^verbatim>\<open>initial\<close> key is passed in the settings object:
  when \<^verbatim>\<open>location.hash\<close> is the hash of one of its links, the first such link is made the
  active tab whatever position was passed; otherwise the tab at the position passed,
  counted from 1, is, and the first tab when no position or no positive one was passed.
  This holds too when the call raises for want of the History/Remote plugin.
\<close>

lemma first_container_initialised:
  "fn_tabs ajaxHistory loc initial_arg settings_arg (c # cs) = (s', c' # cs') \<Longrightarrow>
   \<exists>s1 r. init_container ajaxHistory loc (make_settings ajaxHistory initial_arg settings_arg) c = ((s1, c'), r)"
  by (auto simp: fn_tabs_def tabs_call_def split: prod.splits option.splits)

lemma initial_tab_of_first_container:
  "fn_tabs ajaxHistory loc initial_arg settings_arg (c # cs) = (s', c' # cs') \<Longrightarrow>
   (case (case initial_arg of Object opts \<Rightarrow> Some opts | _ \<Rightarrow> settings_arg) of
      None \<Rightarrow> True | Some opts \<Rightarrow> opt_initial opts = None) \<Longrightarrow>
   (loc \<noteq> '''' \<and> i < length (tabs c) \<and> hash (tabs c ! i) = loc \<and> loc \<notin> hash ` set (take i (tabs c)) \<longrightarrow>
      activated (int i) c c') \<and>
   (loc = '''' \<or> loc \<notin> hash ` set (tabs c) \<longrightarrow>
      (initial_arg = Number n \<and> 0 < n \<longrightarrow> activated (n - 1) c c') \<and>
      ((case initial_arg of Number m \<Rightarrow> m \<le> 0 | _ \<Rightarrow> True) \<longrightarrow> activated 0 c c'))"
proof -
  assume a: "fn_tabs ajaxHistory loc initial_arg settings_arg (c # cs) = (s', c' # cs')"
    and k: "case (case initial_arg of Object opts \<Rightarrow> Some opts | _ \<Rightarrow> settings_arg) of
              None \<Rightarrow> True | Some opts \<Rightarrow> opt_initial opts = None"
  define s where "s = make_settings ajaxHistory initial_arg settings_arg"
  from first_container_initialised [OF a]
  obtain s1 r where i: "init_container ajaxHistory loc s c = ((s1, c'), r)" unfolding s_def by blast
  have ini: "initial s = (case initial_arg of Number n \<Rightarrow> if n > 0 then n - 1 else 0 | _ \<Rightarrow> 0)"
    using k by (simp add: s_def make_settings_def jq_extend_def Let_def split: option.splits arg.splits)
  note act = init_container_activated [OF i]
  show ?thesis
  proof (intro conjI impI)
    assume "loc \<noteq> '''' \<and> i < length (tabs c) \<and> hash (tabs c ! i) = loc \<and> loc \<notin> hash ` set (take i (tabs c))"
    with act each_hash_first [of i "tabs c" loc 0 "initial s"] show "activated (int i) c c'" by simp
  next
    assume n: "loc = '''' \<or> loc \<notin> hash ` set (tabs c)" and "initial_arg = Number n \<and> 0 < n"
    with act ini each_hash_none [of loc "tabs c" 0 "initial s"] show "activated (n - 1) c c'"
      by (auto split: if_splits)
  next
    assume n: "loc = '''' \<or> loc \<notin> hash ` set (tabs c)" and "case initial_arg of Number m \<Rightarrow> m \<le> 0 | _ \<Rightarrow> True"
    with act ini each_hash_none [of loc "tabs c" 0 "initial s"] show "activated 0 c c'"
      by (auto split: if_splits arg.splits)
  qed
qed

text \<open>
  An \<^verbatim>\<open>initial\<close> key of the settings object is taken as it is, as an index counted from 0:
  \<^verbatim>\<open>$('#container').tabs({initial: 2})\<close> on the three tabs starts on the third tab, where
  \<^verbatim>\<open>$('#container').tabs(2)\<close> starts on the second.
\<close>

lemma initial_key_is_not_converted:
  "map selected_tabs (snd (fn_tabs False ''''
     (Object \<lparr>opt_initial = Some 2, opt_disabled = None, opt_bookmarkable = None\<rparr>) None [three_tabs])) = [[2]] \<and>
   map selected_tabs (snd (fn_tabs False '''' (Number 2) None [three_tabs])) = [[1]]"
  by code_simp

text \<open>
  Claim C2 says this of every container. For a container that is not the first of its
  call the code does otherwise, because the index found for an earlier container stays in
  \<^verbatim>\<open>settings.initial\<close>: with the fragment \<^verbatim>\<open>#section-3\<close> in the URL and position 1 passed,
  the second tab interface, none of whose links has that fragment, gets its first tab when
  initialised alone and its third tab when initialised after the interface that owns the
  fragment.
\<close>

theorem later_container_takes_earlier_match:
  "''#section-3'' \<notin> hash ` set (tabs other_tabs) \<and>
   map selected_tabs (snd (fn_tabs False ''#section-3'' (Number 1) None [other_tabs])) = [[0]] \<and>
   map selected_tabs (snd (fn_tabs False ''#section-3'' (Number 1) None [three_tabs, other_tabs])) = [[2], [2]] \<and>
   map visible_contents (snd (fn_tabs False ''#section-3'' (Number 1) None [three_tabs, other_tabs])) = [[2], [2]]"
  by code_simp

section \<open>Several containers in one call\<close>

text \<open>
  Claim C9 says that what is applied to a container does not depend on the containers
  initialised before it. The code has one settings object for the whole call and writes to
  it for each container: line 346 decrements the entries of \<^verbatim>\<open>settings.disabled\<close> in
  place, and line 175 stores the index found from the URL into \<^verbatim>\<open>settings.initial\<close>. With
  \<^verbatim>\<open>disabled: [2]\<close> the second interface has its second tab disabled when initialised
  alone and its first tab when initialised after another interface; with the fragment
  \<^verbatim>\<open>#section-2\<close> of the first interface in the URL, the second interface starts on its
  first tab when initialised alone and on its second tab when initialised after the first.
\<close>

theorem settings_shared_between_containers:
  "map disabled_tabs (snd (fn_tabs False '''' (Object \<lparr>opt_initial = None, opt_disabled = Some [2], opt_bookmarkable = None\<rparr>) None [other_tabs])) = [[1]] \<and>
   map disabled_tabs (snd (fn_tabs False '''' (Object \<lparr>opt_initial = None, opt_disabled = Some [2], opt_bookmarkable = None\<rparr>) None [three_tabs, other_tabs])) = [[1], [0]] \<and>
   map selected_tabs (snd (fn_tabs False ''#section-2'' Undefined None [other_tabs])) = [[0]] \<and>
   map selected_tabs (snd (fn_tabs False ''#section-2'' Undefined None [three_tabs, other_tabs])) = [[1], [1]]"
  by code_simp

text \<open>
  With bookmarking asked for and the History/Remote plugin not loaded, the call raises at
  line 296 for the first container: its initial tab is marked, none of its tabs is
  disabled, and the second container is not reached.
\<close>

lemma bookmarkable_without_plugin_raises:
  "snd (tabs_call False ''''
     (Object \<lparr>opt_initial = None, opt_disabled = Some [2], opt_bookmarkable = Some True\<rparr>) None
     [three_tabs, other_tabs]) = Some TypeError \<and>
   map selected_tabs (snd (fn_tabs False ''''
     (Object \<lparr>opt_initial = None, opt_disabled = Some [2], opt_bookmarkable = Some True\<rparr>) None
     [three_tabs, other_tabs])) = [[0], []] \<and>
   map disabled_tabs (snd (fn_tabs False ''''
     (Object \<lparr>opt_initial = None, opt_disabled = Some [2], opt_bookmarkable = Some True\<rparr>) None
     [three_tabs, other_tabs])) = [[], []]"
  by code_simp

section \<open>One selected tab, one visible section\<close>








lemma length_contents_show_done [simp]: "length (tabsContents (show_done H c)) = length (tabsContents c)"
  by (simp add: show_done_def)


lemma map_hash_select_tab [simp]: "map hash (select_tab i ls) = map hash ls"
  by (rule nth_equalityI) simp_all

lemma visible_hidden_update [simp]: "\<not> visible (e\<lparr>hideClass := True, display := ''''\<rparr>)"
  by (simp add: visible_def)








lemma not_visible_fx_hide [simp]: "\<not> visible (fx_hide e)"
  by (simp add: visible_def fx_hide_def)

lemma elem_id_fx_hide [simp]: "elem_id (fx_hide e) = elem_id e"
  by (simp add: fx_hide_def)

lemma hideClass_fx_hide [simp]: "hideClass (fx_hide e) = hideClass e"
  by (simp add: fx_hide_def)

subsection \<open>One selected tab in every run\<close>


lemma in_flight_animation_end: "set (in_flight (animation_end n p)) \<subseteq> set (in_flight p)"
proof (cases "n < length (animations p)")
  case False
  then show ?thesis by (simp add: animation_end_def)
next
  case True
  then have n: "animations p ! n \<in> set (animations p)" by simp
  have t: "set (take n (animations p)) \<subseteq> set (animations p)" by (rule set_take_subset)
  have d: "set (drop (Suc n) (animations p)) \<subseteq> set (animations p)" by (rule set_drop_subset)
  show ?thesis
  proof (cases "animations p ! n")
    case (Hiding t' k)
    with True have "set (in_flight (animation_end n p)) =
        (\<lambda>a. clicked (transition_of a)) ` (set (take n (animations p)) \<union> set (drop (Suc n) (animations p)))
        \<union> {clicked t'}"
      by (auto simp: animation_end_def in_flight_def Let_def)
    moreover have "clicked t' \<in> set (in_flight p)"
      using n Hiding by (force simp: in_flight_def)
    ultimately show ?thesis using t d by (auto simp: in_flight_def)
  next
    case (Showing t')
    with True have "set (in_flight (animation_end n p)) =
        (\<lambda>a. clicked (transition_of a)) ` (set (take n (animations p)) \<union> set (drop (Suc n) (animations p)))"
      by (auto simp: animation_end_def in_flight_def Let_def)
    then show ?thesis using t d by (auto simp: in_flight_def)
  qed
qed

lemma tabs_animation_end:
  "tabs (dom (animation_end n p)) = tabs (dom p) \<or>
   (\<exists>i \<in> set (in_flight p). tabs (dom (animation_end n p)) = select_tab i (tabs (dom p)))"
proof (cases "n < length (animations p)")
  case False
  then show ?thesis by (simp add: animation_end_def)
next
  case True
  then have n: "animations p ! n \<in> set (animations p)" by simp
  show ?thesis
  proof (cases "animations p ! n")
    case (Hiding t' k)
    then have "clicked t' \<in> set (in_flight p)" using n by (force simp: in_flight_def)
    moreover have "tabs (dom (animation_end n p)) = select_tab (clicked t') (tabs (dom p))"
      using True Hiding by (simp add: animation_end_def Let_def)
    ultimately show ?thesis by blast
  next
    case (Showing t')
    with True show ?thesis by (simp add: animation_end_def Let_def)
  qed
qed

lemma length_tabs_step [simp]: "length (tabs (dom (step s br e p))) = length (tabs (dom p))"
proof (cases e)
  case (Click i)
  then show ?thesis by (simp add: step_def)
next
  case (Command ev t)
  then show ?thesis
    by (cases ev) (simp_all add: step_def tab_command_def trigger_def split: option.splits)
next
  case (AnimationEnd n)
  with tabs_animation_end [of n p] show ?thesis by (auto simp: step_def)
qed





subsection \<open>One visible section in a run without overlap\<close>

















subsection \<open>The container that initialisation leaves\<close>




lemma dom_page_after [simp]: "dom (page_after loc r) = snd (fst r)"
  by (simp add: page_after_def new_page_def)

lemma animations_page_after [simp]: "animations (page_after loc r) = []"
  by (simp add: page_after_def new_page_def)





text \<open>
  Why the transitions must not overlap. On the three tabs, started on the first, a click
  on the second link and a click on the third before the first section has finished
  hiding put two hide animations of the first section in flight. Each of them, at its end,
  shows the section of its own link, and neither show callback hides the other's section:
  when all four animations have ended, the third tab is selected and the second and the
  third section are both visible.
\<close>

lemma overlapping_transitions_show_two_sections:
  "\<not> one_at_a_time \<lparr>initial = 0, disabled = None, bookmarkable = False\<rparr> Mozilla
       [Click 1, Click 2, AnimationEnd 0, AnimationEnd 0, AnimationEnd 0, AnimationEnd 0]
       (snd (started '''' \<lparr>initial = 0, disabled = None, bookmarkable = False\<rparr> three_tabs)) \<and>
   animations (fold (step \<lparr>initial = 0, disabled = None, bookmarkable = False\<rparr> Mozilla)
       [Click 1, Click 2, AnimationEnd 0, AnimationEnd 0, AnimationEnd 0, AnimationEnd 0]
       (snd (started '''' \<lparr>initial = 0, disabled = None, bookmarkable = False\<rparr> three_tabs))) = [] \<and>
   selected_tabs (dom (fold (step \<lparr>initial = 0, disabled = None, bookmarkable = False\<rparr> Mozilla)
       [Click 1, Click 2, AnimationEnd 0, AnimationEnd 0, AnimationEnd 0, AnimationEnd 0]
       (snd (started '''' \<lparr>initial = 0, disabled = None, bookmarkable = False\<rparr> three_tabs)))) = [2] \<and>
   visible_contents (dom (fold (step \<lparr>initial = 0, disabled = None, bookmarkable = False\<rparr> Mozilla)
       [Click 1, Click 2, AnimationEnd 0, AnimationEnd 0, AnimationEnd 0, AnimationEnd 0]
       (snd (started '''' \<lparr>initial = 0, disabled = None, bookmarkable = False\<rparr> three_tabs)))) = [1, 2]"
  by code_simp

section \<open>Clicks on a disabled tab\<close>

lemma unselected_animation_end:
  assumes f: "i \<notin> set (in_flight p)" and i: "i < length (tabs (dom p))"
    and u: "\<not> selectedClass (tabs (dom p) ! i)"
  shows "\<not> selectedClass (tabs (dom (animation_end n p)) ! i)"
proof -
  from tabs_animation_end [of n p] show ?thesis
  proof
    assume "tabs (dom (animation_end n p)) = tabs (dom p)"
    with u show ?thesis by simp
  next
    assume "\<exists>k \<in> set (in_flight p). tabs (dom (animation_end n p)) = select_tab k (tabs (dom p))"
    then obtain k where k: "k \<in> set (in_flight p)"
      and t: "tabs (dom (animation_end n p)) = select_tab k (tabs (dom p))" by blast
    from k f have "i \<noteq> k" by auto
    with i show ?thesis by (simp add: t)
  qed
qed

lemma trigger_keeps_unselected:
  assumes k: "k < length (tabs (dom p))" and d: "disabledClass (tabs (dom p) ! k)"
    and u: "\<not> selectedClass (tabs (dom p) ! k)" and f: "k \<notin> set (in_flight p)"
    and i: "i < length (tabs (dom p))"
  shows "\<not> selectedClass (tabs (dom (trigger s br ev i p)) ! k) \<and> k \<notin> set (in_flight (trigger s br ev i p))"
proof (cases ev)
  case TriggerTab
  show ?thesis
  proof (cases "i = k")
    case True
    with d u f TriggerTab show ?thesis by (simp add: trigger_def triggerTab_disabled)
  next
    case False
    with f in_flight_triggerTab [of s br i p] have "k \<notin> set (in_flight (triggerTab s br i p))" by auto
    with u TriggerTab show ?thesis by (simp add: trigger_def)
  qed
next
  case DisableTab
  with k u f show ?thesis by (simp add: trigger_def)
next
  case EnableTab
  with k u f show ?thesis by (simp add: trigger_def)
qed

lemma step_keeps_unselected:
  assumes k: "k < length (tabs (dom p))" and d: "disabledClass (tabs (dom p) ! k)"
    and u: "\<not> selectedClass (tabs (dom p) ! k)" and f: "k \<notin> set (in_flight p)"
  shows "\<not> selectedClass (tabs (dom (step s br e p)) ! k) \<and> k \<notin> set (in_flight (step s br e p))"
proof (cases "bound p")
  case False
  with u f show ?thesis by (simp add: step_def)
next
  case b: True
  show ?thesis
  proof (cases e)
    case (Click i)
    show ?thesis
    proof (cases "i = k")
      case True
      with b d u f Click show ?thesis by (simp add: step_def click_disabled)
    next
      case False
      with f in_flight_click [of s i p] have "k \<notin> set (in_flight (snd (click s i p)))" by auto
      with b u f Click show ?thesis by (simp add: step_def)
    qed
  next
    case (Command ev t)
    show ?thesis
    proof (cases "eq_index (tab_index t) (length (tabs (dom p)))")
      case None
      with b u f Command show ?thesis by (simp add: step_def tab_command_def)
    next
      case (Some i)
      then have i: "i < length (tabs (dom p))" by (auto simp: eq_index_def split: if_splits)
      from b Some Command have "step s br e p = trigger s br ev i p"
        by (simp add: step_def tab_command_def)
      with trigger_keeps_unselected [OF k d u f i, of s br ev] show ?thesis by simp
    qed
  next
    case (AnimationEnd n)
    with b unselected_animation_end [OF f k u, of n] in_flight_animation_end [of n p] f
    show ?thesis by (auto simp: step_def)
  qed
qed

lemma hide_end_selects:
  assumes n: "n < length (animations p)" and a: "animations p ! n = Hiding t k"
    and c: "clicked t < length (tabs (dom p))"
  shows "selectedClass (tabs (dom (animation_end n p)) ! clicked t) \<and>
         disabledClass (tabs (dom (animation_end n p)) ! clicked t) = disabledClass (tabs (dom p) ! clicked t)"
  using assms by (simp add: animation_end_def Let_def)

lemma disable_loop_disabled:
  "disable_loop ds ls = (ds', ls') \<Longrightarrow> k < length ls \<Longrightarrow> disabledClass (ls ! k) \<Longrightarrow>
   length ls' = length ls \<and> disabledClass (ls' ! k)"
proof (induction ds arbitrary: ls ds' ls')
  case Nil
  then show ?case by simp
next
  case (Cons d ds)
  obtain ds1 ls1 where r: "disable_loop ds (on_eq (d - 1) disableTab ls) = (ds1, ls1)"
    by (cases "disable_loop ds (on_eq (d - 1) disableTab ls)")
  with Cons.prems have e: "ls' = ls1" by (simp add: Let_def)
  have 1: "k < length (on_eq (d - 1) disableTab ls)" using Cons.prems by simp
  have 2: "disabledClass (on_eq (d - 1) disableTab ls ! k)"
    using Cons.prems by (simp add: nth_on_eq disableTab_def)
  from Cons.IH [OF r 1 2] e show ?case by simp
qed

lemma init_selects_initial_tab:
  assumes i: "init_container ah loc s c = ((s', c'), r)"
    and q: "eq_index (initial s') (length (tabs c)) = Some q"
  shows "selectedClass (tabs c' ! q) \<and> (disabledClass (tabs c ! q) \<longrightarrow> disabledClass (tabs c' ! q))"
proof -
  define n where "n = initial s'"
  from init_container_initial [OF i]
  have n_def': "n = (if loc \<noteq> '''' then each_hash loc (tabs c) 0 (initial s) else initial s)"
    by (simp add: n_def)
  from q have qq: "q < length (tabs c)" "int q = n" by (auto simp: eq_index_def n_def split: if_splits)
  let ?tabs1 = "on_eq n (\<lambda>l. l\<lparr>selectedClass := True\<rparr>) (tabs c)"
  from init_container_tabs [OF i]
  have sel: "map selectedClass (tabs c') = map selectedClass ?tabs1"
    and hs: "map hash (tabs c') = map hash (tabs c)" by (simp_all add: n_def')
  from hs have len: "length (tabs c') = length (tabs c)" by (rule map_eq_imp_length_eq)
  have "selectedClass (tabs c' ! q) = map selectedClass (tabs c') ! q" using qq len by simp
  also have "\<dots> = selectedClass (?tabs1 ! q)" using qq by (simp add: sel)
  also have "\<dots> = True" using qq by (simp add: nth_on_eq)
  finally have 1: "selectedClass (tabs c' ! q)" by simp
  have 2: "disabledClass (tabs c' ! q)" if d: "disabledClass (tabs c ! q)"
  proof -
    have d1: "disabledClass (?tabs1 ! q)" using qq d by (simp add: nth_on_eq)
    have q1: "q < length ?tabs1" using qq by simp
    show ?thesis
    proof (cases "disabled s = None \<or> (bookmarkable s \<and> \<not> ah)")
      case True
      with i have "tabs c' = ?tabs1"
        by (auto simp: init_container_def Let_def n_def' split: if_splits option.splits)
      with d1 show ?thesis by simp
    next
      case False
      then obtain ds where ds: "disabled s = Some ds" and nb: "\<not> (bookmarkable s \<and> \<not> ah)" by auto
      obtain ds1 ls1 where l: "disable_loop ds ?tabs1 = (ds1, ls1)" by (cases "disable_loop ds ?tabs1")
      with i ds nb have "tabs c' = ls1"
        by (auto simp: init_container_def Let_def n_def' split: if_splits)
      with disable_loop_disabled [OF l q1 d1] show ?thesis by simp
    qed
  qed
  from 1 2 show ?thesis by blast
qed

text \<open>
  Claim C4, as amended. A click on a tab whose list item carries the disabled class returns
  false and leaves the whole page as it was: no animation starts, no section is shown or
  hidden and no tab changes its selection. A tab that is disabled and not selected, and
  toward which no transition is in flight, is not selected by any single event, and no
  event puts a transition toward it in flight: so it stays unselected for as long as it
  stays disabled.

  The disabled class is read by the click handler and by the \<^verbatim>\<open>triggerTab\<close> handler only.
  The callback of a hide animation selects the tab that was clicked whatever its disabled
  class says by then, and initialisation selects the initial tab whether or not its list
  item carries the disabled class in the markup; neither takes the disabled class off.
\<close>

theorem click_on_disabled_tab:
  "(i < length (tabs (dom p)) \<and> disabledClass (tabs (dom p) ! i) \<longrightarrow>
      click s i p = (False, p) \<and>
      (\<not> selectedClass (tabs (dom p) ! i) \<and> i \<notin> set (in_flight p) \<longrightarrow>
         \<not> selectedClass (tabs (dom (step s br e p)) ! i) \<and> i \<notin> set (in_flight (step s br e p)))) \<and>
   (n < length (animations p) \<and> animations p ! n = Hiding t k \<and> clicked t < length (tabs (dom p)) \<longrightarrow>
      selectedClass (tabs (dom (animation_end n p)) ! clicked t) \<and>
      disabledClass (tabs (dom (animation_end n p)) ! clicked t) = disabledClass (tabs (dom p) ! clicked t)) \<and>
   (eq_index (initial (fst (fst (init_container ah loc si c)))) (length (tabs c)) = Some q \<longrightarrow>
      selectedClass (tabs (snd (fst (init_container ah loc si c))) ! q) \<and>
      (disabledClass (tabs c ! q) \<longrightarrow> disabledClass (tabs (snd (fst (init_container ah loc si c))) ! q)))"
proof -
  obtain s1 c1 r where i: "init_container ah loc si c = ((s1, c1), r)"
    by (metis prod.collapse)
  have 3: "selectedClass (tabs (snd (fst (init_container ah loc si c))) ! q) \<and>
      (disabledClass (tabs c ! q) \<longrightarrow> disabledClass (tabs (snd (fst (init_container ah loc si c))) ! q))"
    if "eq_index (initial (fst (fst (init_container ah loc si c)))) (length (tabs c)) = Some q"
    using init_selects_initial_tab [OF i, of q] that by (simp add: i)
  from 3 show ?thesis
    by (simp add: click_disabled step_keeps_unselected hide_end_selects)
qed

theorem click_on_disabled_tab_witness:
  "2 < length (tabs (dom (snd (started '''' \<lparr>initial = 0, disabled = Some [3], bookmarkable = False\<rparr> three_tabs)))) \<and>
   disabledClass (tabs (dom (snd (started '''' \<lparr>initial = 0, disabled = Some [3], bookmarkable = False\<rparr> three_tabs))) ! 2) \<and>
   \<not> selectedClass (tabs (dom (snd (started '''' \<lparr>initial = 0, disabled = Some [3], bookmarkable = False\<rparr> three_tabs))) ! 2) \<and>
   2 \<notin> set (in_flight (snd (started '''' \<lparr>initial = 0, disabled = Some [3], bookmarkable = False\<rparr> three_tabs))) \<and>
   click (fst (started '''' \<lparr>initial = 0, disabled = Some [3], bookmarkable = False\<rparr> three_tabs)) 2
     (snd (started '''' \<lparr>initial = 0, disabled = Some [3], bookmarkable = False\<rparr> three_tabs))
   = (False, snd (started '''' \<lparr>initial = 0, disabled = Some [3], bookmarkable = False\<rparr> three_tabs)) \<and>
   \<not> selectedClass (tabs (dom (step (fst (started '''' \<lparr>initial = 0, disabled = Some [3], bookmarkable = False\<rparr> three_tabs))
       Mozilla (Command TriggerTab (Some 3))
       (snd (started '''' \<lparr>initial = 0, disabled = Some [3], bookmarkable = False\<rparr> three_tabs)))) ! 2) \<and>
   in_flight (step (fst (started '''' \<lparr>initial = 0, disabled = Some [3], bookmarkable = False\<rparr> three_tabs))
       Mozilla (Command TriggerTab (Some 3))
       (snd (started '''' \<lparr>initial = 0, disabled = Some [3], bookmarkable = False\<rparr> three_tabs))) = [] \<and>
   animations (fold (step \<lparr>initial = 0, disabled = None, bookmarkable = False\<rparr> Mozilla)
       [Command TriggerTab (Some 2), Command DisableTab (Some 2)]
       (snd (started '''' \<lparr>initial = 0, disabled = None, bookmarkable = False\<rparr> three_tabs)))
     = [Hiding \<lparr>clicked = 1, toShow = 1, toHide = [0]\<rparr> 0] \<and>
   clicked \<lparr>clicked = 1, toShow = 1, toHide = [0]\<rparr> < length (tabs (dom (fold (step \<lparr>initial = 0, disabled = None, bookmarkable = False\<rparr> Mozilla)
       [Command TriggerTab (Some 2), Command DisableTab (Some 2)]
       (snd (started '''' \<lparr>initial = 0, disabled = None, bookmarkable = False\<rparr> three_tabs))))) \<and>
   disabledClass (tabs (dom (fold (step \<lparr>initial = 0, disabled = None, bookmarkable = False\<rparr> Mozilla)
       [Command TriggerTab (Some 2), Command DisableTab (Some 2)]
       (snd (started '''' \<lparr>initial = 0, disabled = None, bookmarkable = False\<rparr> three_tabs)))) ! 1) \<and>
   selectedClass (tabs (dom (animation_end 0 (fold (step \<lparr>initial = 0, disabled = None, bookmarkable = False\<rparr> Mozilla)
       [Command TriggerTab (Some 2), Command DisableTab (Some 2)]
       (snd (started '''' \<lparr>initial = 0, disabled = None, bookmarkable = False\<rparr> three_tabs))))) ! 1) \<and>
   eq_index (initial (fst (fst (init_container True ''#section-2'' \<lparr>initial = 0, disabled = None, bookmarkable = False\<rparr>
       (three_tabs\<lparr>tabs := [link ''#section-1'', disableTab (link ''#section-2''), link ''#section-3'']\<rparr>)))))
     (length (tabs (three_tabs\<lparr>tabs := [link ''#section-1'', disableTab (link ''#section-2''), link ''#section-3'']\<rparr>))) = Some 1 \<and>
   disabled_tabs (three_tabs\<lparr>tabs := [link ''#section-1'', disableTab (link ''#section-2''), link ''#section-3'']\<rparr>) = [1] \<and>
   markup_ok (three_tabs\<lparr>tabs := [link ''#section-1'', disableTab (link ''#section-2''), link ''#section-3'']\<rparr>) \<and>
   selected_tabs (snd (fst (init_container True ''#section-2'' \<lparr>initial = 0, disabled = None, bookmarkable = False\<rparr>
       (three_tabs\<lparr>tabs := [link ''#section-1'', disableTab (link ''#section-2''), link ''#section-3'']\<rparr>)))) = [1] \<and>
   disabled_tabs (snd (fst (init_container True ''#section-2'' \<lparr>initial = 0, disabled = None, bookmarkable = False\<rparr>
       (three_tabs\<lparr>tabs := [link ''#section-1'', disableTab (link ''#section-2''), link ''#section-3'']\<rparr>)))) = [1]"
  using click_on_disabled_tab [where i = 2
      and p = "snd (started '''' \<lparr>initial = 0, disabled = Some [3], bookmarkable = False\<rparr> three_tabs)"
      and s = "fst (started '''' \<lparr>initial = 0, disabled = Some [3], bookmarkable = False\<rparr> three_tabs)"
      and br = Mozilla and e = "Command TriggerTab (Some 3)"]
    click_on_disabled_tab [where n = 0
      and p = "fold (step \<lparr>initial = 0, disabled = None, bookmarkable = False\<rparr> Mozilla)
         [Command TriggerTab (Some 2), Command DisableTab (Some 2)]
         (snd (started '''' \<lparr>initial = 0, disabled = None, bookmarkable = False\<rparr> three_tabs))"
      and t = "\<lparr>clicked = 1, toShow = 1, toHide = [0]\<rparr>" and k = 0]
    click_on_disabled_tab [where ah = True and loc = "''#section-2''"
      and si = "\<lparr>initial = 0, disabled = None, bookmarkable = False\<rparr>"
      and c = "three_tabs\<lparr>tabs := [link ''#section-1'', disableTab (link ''#section-2''), link ''#section-3'']\<rparr>"
      and q = 1]
  by code_simp

text \<open>
  On the three tabs, started on the first: \<^verbatim>\<open>triggerTab(2)\<close> starts the transition to the
  second tab, \<^verbatim>\<open>disableTab(2)\<close> disables the second tab while the first section is still
  hiding, and the end of that hide animation selects the second tab, which is disabled.
\<close>

theorem disabled_during_transition_is_selected:
  "selected_tabs (dom (fold (step \<lparr>initial = 0, disabled = None, bookmarkable = False\<rparr> Mozilla)
       [Command TriggerTab (Some 2), Command DisableTab (Some 2)]
       (snd (started '''' \<lparr>initial = 0, disabled = None, bookmarkable = False\<rparr> three_tabs)))) = [0] \<and>
   disabled_tabs (dom (fold (step \<lparr>initial = 0, disabled = None, bookmarkable = False\<rparr> Mozilla)
       [Command TriggerTab (Some 2), Command DisableTab (Some 2)]
       (snd (started '''' \<lparr>initial = 0, disabled = None, bookmarkable = False\<rparr> three_tabs)))) = [1] \<and>
   selected_tabs (dom (fold (step \<lparr>initial = 0, disabled = None, bookmarkable = False\<rparr> Mozilla)
       [Command TriggerTab (Some 2), Command DisableTab (Some 2), AnimationEnd 0]
       (snd (started '''' \<lparr>initial = 0, disabled = None, bookmarkable = False\<rparr> three_tabs)))) = [1] \<and>
   disabled_tabs (dom (fold (step \<lparr>initial = 0, disabled = None, bookmarkable = False\<rparr> Mozilla)
       [Command TriggerTab (Some 2), Command DisableTab (Some 2), AnimationEnd 0]
       (snd (started '''' \<lparr>initial = 0, disabled = None, bookmarkable = False\<rparr> three_tabs)))) = [1]"
  by code_simp

end
